theory Spec2Isabelle
  imports Main
begin

section \<open>Strings\<close>

text \<open>
  JavaScript strings are modelled as \<^typ>\<open>string\<close>. The three string methods the
  program uses compare code units only, so they are the same functions on any alphabet.
\<close>

text \<open>\<^verbatim>\<open>s.startsWith(p)\<close>\<close>

fun startsWith :: "string \<Rightarrow> string \<Rightarrow> bool" where
  "startsWith s [] = True"
| "startsWith [] (p # ps) = False"
| "startsWith (c # cs) (p # ps) = (c = p \<and> startsWith cs ps)"

text \<open>\<^verbatim>\<open>s.includes(p)\<close>: \<open>p\<close> occurs in \<open>s\<close> at some position.\<close>

fun includes_str :: "string \<Rightarrow> string \<Rightarrow> bool" where
  "includes_str [] p = (p = [])"
| "includes_str (c # cs) p = (startsWith (c # cs) p \<or> includes_str cs p)"

text \<open>\<^verbatim>\<open>xs.join(sep)\<close>\<close>

fun join :: "string \<Rightarrow> string list \<Rightarrow> string" where
  "join sep [] = []"
| "join sep [x] = x"
| "join sep (x # y # ys) = x @ sep @ join sep (y # ys)"

text \<open>The decimal rendering of a non-negative integer inside a template literal.\<close>

definition digit_char :: "nat \<Rightarrow> char" where
  "digit_char d = char_of (48 + d)"

fun string_of_nat :: "nat \<Rightarrow> string" where
  "string_of_nat n =
     (if n < 10 then [digit_char n] else string_of_nat (n div 10) @ [digit_char (n mod 10)])"

text \<open>
  The number \<^verbatim>\<open>parseInt(s)\<close>. \<^verbatim>\<open>parseInt\<close> is a built-in of the language and not code
  of the program, so the model keeps its result as the application to the argument and
  does not compute it.
\<close>

datatype js_number = ParseInt string

section \<open>Data model of the resolver client\<close>

datatype RecordType = A | AAAA | MX | TXT | CNAME | NS | SOA | PTR | SRV

text \<open>\<^verbatim>\<open>interface DNSRecord\<close>; \<open>priority\<close> is optional.\<close>

record DNSRecord =
  rec_type :: string
  rec_name :: string
  rec_value :: string
  rec_ttl :: int
  rec_priority :: "js_number option"

text \<open>
  \<^verbatim>\<open>interface DNSLookupResult\<close>. The fields \<open>responseTime\<close> and \<open>timestamp\<close> are
  readings of the wall clock and are not part of the model.
\<close>

record DNSLookupResult =
  lr_domain :: string
  lr_recordType :: RecordType
  lr_records :: "DNSRecord list"
  lr_error :: "string option"

text \<open>The JSON body of a DNS-over-HTTPS answer, as far as the client reads it.\<close>

record answer =
  ans_type :: int
  ans_name :: string
  ans_data :: string
  ans_TTL :: int

record doh_json =
  Status :: int
  Answer :: "answer list option"

text \<open>
  What one \<^verbatim>\<open>fetch\<close> can do: reject (the thrown value, as the template literal renders
  it), or resolve to a response with an HTTP status. Its body is either a JSON object of
  the shape above, or \<open>Malformed\<close>: a body on which \<^verbatim>\<open>response.json()\<close> rejects or the
  reads that follow throw, with the thrown value as rendered.
\<close>

datatype body = Json doh_json | Malformed string

datatype fetch_outcome = NetworkError string | Response nat body

text \<open>The request \<^verbatim>\<open>${server}?name=<domain>&type=<code>\<close>.\<close>

record request =
  req_server :: string
  req_name :: string
  req_type :: nat

type_synonym network = "request \<Rightarrow> fetch_outcome"

definition DNS_OVER_HTTPS_SERVERS :: "string list" where
  "DNS_OVER_HTTPS_SERVERS = [''https://dns.google/resolve'', ''https://cloudflare-dns.com/dns-query'']"

fun typeCode :: "RecordType \<Rightarrow> nat" where
  "typeCode A = 1"
| "typeCode AAAA = 28"
| "typeCode MX = 15"
| "typeCode TXT = 16"
| "typeCode CNAME = 5"
| "typeCode NS = 2"
| "typeCode SOA = 6"
| "typeCode PTR = 12"
| "typeCode SRV = 33"

text \<open>\<^verbatim>\<open>response.ok\<close>\<close>

definition response_ok :: "nat \<Rightarrow> bool" where
  "response_ok code = (200 \<le> code \<and> code \<le> 299)"

text \<open>The symbolic name of an answer's numeric type.\<close>

definition answer_type_name :: "int \<Rightarrow> string" where
  "answer_type_name t =
     (if t = 1 then ''A'' else if t = 28 then ''AAAA''
      else if t = 15 then ''MX'' else if t = 16 then ''TXT''
      else if t = 5 then ''CNAME'' else if t = 2 then ''NS''
      else if t = 6 then ''SOA'' else if t = 12 then ''PTR''
      else if t = 33 then ''SRV'' else ''UNKNOWN'')"

text \<open>\<^verbatim>\<open>answer.data.split(' ')[0]\<close>\<close>

definition first_field :: "string \<Rightarrow> string" where
  "first_field s = takeWhile (\<lambda>c. c \<noteq> CHR '' '') s"

definition to_record :: "answer \<Rightarrow> DNSRecord" where
  "to_record a =
     \<lparr> rec_type = answer_type_name (ans_type a),
       rec_name = ans_name a,
       rec_value = ans_data a,
       rec_ttl = ans_TTL a,
       rec_priority = (if ans_type a = 15 then Some (ParseInt (first_field (ans_data a))) else None) \<rparr>"

section \<open>lookupDNS\<close>

text \<open>
  The loop over the endpoints threads two things: the \<open>errors\<close> array of the source, and
  the log of the requests sent so far, which makes the effect of \<^verbatim>\<open>fetch\<close> visible.
\<close>

record lookup_state =
  errors :: "string list"
  fetched :: "request list"

definition push_error :: "string \<Rightarrow> lookup_state \<Rightarrow> lookup_state" where
  "push_error msg st = st\<lparr>errors := errors st @ [msg]\<rparr>"

fun lookup_servers ::
  "network \<Rightarrow> string \<Rightarrow> RecordType \<Rightarrow> string list \<Rightarrow> lookup_state \<Rightarrow> DNSLookupResult \<times> lookup_state"
where
  "lookup_servers net domain recordType [] st =
     (\<lparr> lr_domain = domain, lr_recordType = recordType, lr_records = [],
        lr_error = Some (''All DNS servers failed: '' @ join '', '' (errors st)) \<rparr>, st)"
| "lookup_servers net domain recordType (server # rest) st =
     (let rq = \<lparr> req_server = server, req_name = domain, req_type = typeCode recordType \<rparr>;
          st1 = st\<lparr>fetched := fetched st @ [rq]\<rparr>
      in case net rq of
           NetworkError e \<Rightarrow>
             lookup_servers net domain recordType rest
               (push_error (''Server '' @ server @ '' failed: '' @ e) st1)
         | Response code b \<Rightarrow>
             if \<not> response_ok code then
               lookup_servers net domain recordType rest
                 (push_error (''Server '' @ server @ '' returned '' @ string_of_nat code) st1)
             else
               (case b of
                  Malformed e \<Rightarrow>
                    lookup_servers net domain recordType rest
                      (push_error (''Server '' @ server @ '' failed: '' @ e) st1)
                | Json data \<Rightarrow>
                    if Status data = 0 \<and> Answer data \<noteq> None then
                      (\<lparr> lr_domain = domain, lr_recordType = recordType,
                         lr_records = map to_record (the (Answer data)),
                         lr_error = None \<rparr>, st1)
                    else if Status data = 3 then
                      (\<lparr> lr_domain = domain, lr_recordType = recordType, lr_records = [],
                         lr_error = Some ''NXDOMAIN - Domain does not exist'' \<rparr>, st1)
                    else lookup_servers net domain recordType rest st1))"

definition lookupDNS_run :: "network \<Rightarrow> string \<Rightarrow> RecordType \<Rightarrow> DNSLookupResult \<times> lookup_state" where
  "lookupDNS_run net domain recordType =
     lookup_servers net domain recordType DNS_OVER_HTTPS_SERVERS \<lparr> errors = [], fetched = [] \<rparr>"

definition lookupDNS :: "network \<Rightarrow> string \<Rightarrow> RecordType \<Rightarrow> DNSLookupResult" where
  "lookupDNS net domain recordType = fst (lookupDNS_run net domain recordType)"

text \<open>
  The message the loop records for one endpoint, if any, and whether the endpoint ends
  the loop.
\<close>

definition endpoint_error :: "network \<Rightarrow> string \<Rightarrow> RecordType \<Rightarrow> string \<Rightarrow> string option" where
  "endpoint_error net domain recordType server =
     (case net \<lparr> req_server = server, req_name = domain, req_type = typeCode recordType \<rparr> of
        NetworkError e \<Rightarrow> Some (''Server '' @ server @ '' failed: '' @ e)
      | Response code b \<Rightarrow>
          if \<not> response_ok code then Some (''Server '' @ server @ '' returned '' @ string_of_nat code)
          else (case b of Malformed e \<Rightarrow> Some (''Server '' @ server @ '' failed: '' @ e)
                | Json data \<Rightarrow> None))"

definition usable :: "network \<Rightarrow> string \<Rightarrow> RecordType \<Rightarrow> string \<Rightarrow> bool" where
  "usable net domain recordType server =
     (case net \<lparr> req_server = server, req_name = domain, req_type = typeCode recordType \<rparr> of
        NetworkError e \<Rightarrow> False
      | Response code b \<Rightarrow>
          response_ok code \<and>
          (case b of Malformed e \<Rightarrow> False
           | Json data \<Rightarrow> (Status data = 0 \<and> Answer data \<noteq> None) \<or> Status data = 3))"

section \<open>analyzeAttackSurface\<close>

datatype severity = Critical | High | Medium | Low

text \<open>\<^verbatim>\<open>interface AttackSurfaceIssue\<close>\<close>

record AttackSurfaceIssue =
  issue_id :: string
  issue_severity :: severity
  category :: string
  title :: string
  description :: string
  recommendation :: string

text \<open>The members of \<^verbatim>\<open>AttackSurfaceResult.checks\<close>.\<close>

record txt_check =
  tc_present :: bool
  tc_valid :: bool
  tc_record :: "string option"

record dnssec_check =
  dc_present :: bool
  dc_signed :: bool

record list_check =
  lc_present :: bool
  lc_records :: "string list"

record checks =
  spf :: txt_check
  dmarc :: txt_check
  dnssec :: dnssec_check
  mx :: list_check
  ns :: list_check

record AttackSurfaceResult =
  asr_domain :: string
  riskScore :: int
  issues :: "AttackSurfaceIssue list"
  asr_checks :: checks

text \<open>
  \<^verbatim>\<open>records.find(r => r.value.startsWith(prefix))\<close> followed by the object literal
  \<^verbatim>\<open>{ present: !!rec, valid: rec ? rec.value.includes(prefix) : false, record: rec?.value }\<close>.
  It is written once in the model and used with \<^verbatim>\<open>'v=spf1'\<close> and \<^verbatim>\<open>'v=dmarc1'\<close>, where the
  source writes it twice.
\<close>

definition txt_policy_check :: "string \<Rightarrow> DNSLookupResult \<Rightarrow> txt_check" where
  "txt_policy_check pre res =
     (case find (\<lambda>r. startsWith (rec_value r) pre) (lr_records res) of
        None \<Rightarrow> \<lparr> tc_present = False, tc_valid = False, tc_record = None \<rparr>
      | Some r \<Rightarrow> \<lparr> tc_present = True, tc_valid = includes_str (rec_value r) pre,
                    tc_record = Some (rec_value r) \<rparr>)"

definition spf_check :: "DNSLookupResult \<Rightarrow> txt_check" where
  "spf_check spfResult = txt_policy_check ''v=spf1'' spfResult"

definition dmarc_check :: "DNSLookupResult \<Rightarrow> txt_check" where
  "dmarc_check dmarcResult = txt_policy_check ''v=dmarc1'' dmarcResult"

definition dnssec_check_of :: "DNSLookupResult \<Rightarrow> dnssec_check" where
  "dnssec_check_of dnssecResult =
     \<lparr> dc_present = (length (lr_records dnssecResult) > 0), dc_signed = False \<rparr>"

definition mx_check :: "DNSLookupResult \<Rightarrow> list_check" where
  "mx_check mxResult =
     \<lparr> lc_present = (length (lr_records mxResult) > 0),
       lc_records = map rec_value (lr_records mxResult) \<rparr>"

definition ns_check :: "DNSLookupResult \<Rightarrow> list_check" where
  "ns_check nsResult =
     \<lparr> lc_present = (length (lr_records nsResult) > 0),
       lc_records = map rec_value (lr_records nsResult) \<rparr>"

text \<open>
  The two mutable locals \<open>issues\<close> and \<open>riskScore\<close>, threaded through the five rule
  statements.
\<close>

record tally =
  t_issues :: "AttackSurfaceIssue list"
  t_riskScore :: int

definition fire :: "AttackSurfaceIssue \<Rightarrow> int \<Rightarrow> tally \<Rightarrow> tally" where
  "fire i delta t = \<lparr> t_issues = t_issues t @ [i], t_riskScore = t_riskScore t + delta \<rparr>"

definition spf_missing :: AttackSurfaceIssue where
  "spf_missing =
     \<lparr> issue_id = ''spf-missing'', issue_severity = High, category = ''Email Security'',
       title = ''SPF Record Missing'',
       description = ''No SPF record found for domain. This could allow email spoofing.'',
       recommendation = ''Add an SPF record to specify authorized mail servers.'' \<rparr>"

definition spf_invalid :: AttackSurfaceIssue where
  "spf_invalid =
     \<lparr> issue_id = ''spf-invalid'', issue_severity = Medium, category = ''Email Security'',
       title = ''SPF Record Invalid'',
       description = ''SPF record exists but may be misconfigured.'',
       recommendation = ''Review SPF syntax and ensure it covers all authorized servers.'' \<rparr>"

definition dmarc_missing :: AttackSurfaceIssue where
  "dmarc_missing =
     \<lparr> issue_id = ''dmarc-missing'', issue_severity = High, category = ''Email Security'',
       title = ''DMARC Record Missing'',
       description = ''No DMARC record found. This leaves domain vulnerable to email spoofing.'',
       recommendation = ''Implement DMARC policy to protect your domain from email spoofing.'' \<rparr>"

definition dmarc_invalid :: AttackSurfaceIssue where
  "dmarc_invalid =
     \<lparr> issue_id = ''dmarc-invalid'', issue_severity = Medium, category = ''Email Security'',
       title = ''DMARC Record Invalid'',
       description = ''DMARC record exists but may be misconfigured.'',
       recommendation = ''Review DMARC policy syntax and alignment settings.'' \<rparr>"

definition dnssec_missing :: AttackSurfaceIssue where
  "dnssec_missing =
     \<lparr> issue_id = ''dnssec-missing'', issue_severity = Low, category = ''DNSSEC'',
       title = ''DNSSEC Not Configured'',
       description = ''Domain does not appear to have DNSSEC enabled.'',
       recommendation = ''Consider enabling DNSSEC to protect against DNS spoofing attacks.'' \<rparr>"

definition mx_missing :: AttackSurfaceIssue where
  "mx_missing =
     \<lparr> issue_id = ''mx-missing'', issue_severity = Medium, category = ''Email Delivery'',
       title = ''MX Records Missing'',
       description = ''No MX records found. Domain cannot receive emails.'',
       recommendation = ''Add MX records if you expect to receive emails.'' \<rparr>"

definition ns_insufficient :: AttackSurfaceIssue where
  "ns_insufficient =
     \<lparr> issue_id = ''ns-insufficient'', issue_severity = Low, category = ''Infrastructure'',
       title = ''Insufficient Nameservers'',
       description = ''Domain has fewer than 2 nameservers, which may affect redundancy.'',
       recommendation = ''Use at least 2 nameservers for redundancy.'' \<rparr>"

definition spf_rule :: "txt_check \<Rightarrow> tally \<Rightarrow> tally" where
  "spf_rule c t =
     (if \<not> tc_present c then fire spf_missing 25 t
      else if \<not> tc_valid c then fire spf_invalid 15 t
      else t)"

definition dmarc_rule :: "txt_check \<Rightarrow> tally \<Rightarrow> tally" where
  "dmarc_rule c t =
     (if \<not> tc_present c then fire dmarc_missing 25 t
      else if \<not> tc_valid c then fire dmarc_invalid 10 t
      else t)"

definition dnssec_rule :: "dnssec_check \<Rightarrow> tally \<Rightarrow> tally" where
  "dnssec_rule c t = (if \<not> dc_present c then fire dnssec_missing 10 t else t)"

definition mx_rule :: "list_check \<Rightarrow> tally \<Rightarrow> tally" where
  "mx_rule c t = (if \<not> lc_present c then fire mx_missing 15 t else t)"

definition ns_rule :: "list_check \<Rightarrow> tally \<Rightarrow> tally" where
  "ns_rule c t = (if length (lc_records c) < 2 then fire ns_insufficient 5 t else t)"

text \<open>The tally after the five rule statements, before the final \<^verbatim>\<open>Math.min\<close>.\<close>

definition run_rules :: "checks \<Rightarrow> tally" where
  "run_rules c =
     ns_rule (ns c) (mx_rule (mx c) (dnssec_rule (dnssec c) (dmarc_rule (dmarc c)
       (spf_rule (spf c) \<lparr> t_issues = [], t_riskScore = 0 \<rparr>))))"

text \<open>The body of \<^verbatim>\<open>analyzeAttackSurface\<close> from the five settled lookups on.\<close>

definition analyze_results ::
  "string \<Rightarrow> DNSLookupResult \<Rightarrow> DNSLookupResult \<Rightarrow> DNSLookupResult \<Rightarrow> DNSLookupResult \<Rightarrow>
   DNSLookupResult \<Rightarrow> AttackSurfaceResult"
where
  "analyze_results domain spfResult dmarcResult dnssecResult mxResult nsResult =
     (let c = \<lparr> spf = spf_check spfResult, dmarc = dmarc_check dmarcResult,
                dnssec = dnssec_check_of dnssecResult, mx = mx_check mxResult,
                ns = ns_check nsResult \<rparr>;
          t = run_rules c
      in \<lparr> asr_domain = domain, riskScore = min (t_riskScore t) 100, issues = t_issues t,
           asr_checks = c \<rparr>)"

text \<open>
  The five lookups of the \<^verbatim>\<open>Promise.all\<close>, in the order of the array. They run
  concurrently and nothing makes the upstream answer two of them alike, so each has a
  network of its own: \<open>nets i\<close> is what the \<open>i\<close>-th lookup sees.
\<close>

definition analyzeAttackSurface :: "(nat \<Rightarrow> network) \<Rightarrow> string \<Rightarrow> AttackSurfaceResult" where
  "analyzeAttackSurface nets domain =
     (let spfResult = lookupDNS (nets 0) domain TXT;
          dmarcResult = lookupDNS (nets 1) domain TXT;
          dnssecResult = lookupDNS (nets 2) domain SOA;
          mxResult = lookupDNS (nets 3) domain MX;
          nsResult = lookupDNS (nets 4) domain NS
      in analyze_results domain spfResult dmarcResult dnssecResult mxResult nsResult)"

text \<open>
  The rule table of the specification, read off a result's \<open>checks\<close>: for each row its
  condition, the slug of the issue it emits and its score delta. \<open>fired\<close> keeps the rows
  whose condition holds, in the order of the table.
\<close>

definition rule_table :: "checks \<Rightarrow> (bool \<times> string \<times> int) list" where
  "rule_table c =
     [ (\<not> tc_present (spf c), ''spf-missing'', 25),
       (tc_present (spf c) \<and> \<not> tc_valid (spf c), ''spf-invalid'', 15),
       (\<not> tc_present (dmarc c), ''dmarc-missing'', 25),
       (tc_present (dmarc c) \<and> \<not> tc_valid (dmarc c), ''dmarc-invalid'', 10),
       (\<not> dc_present (dnssec c), ''dnssec-missing'', 10),
       (\<not> lc_present (mx c), ''mx-missing'', 15),
       (length (lc_records (ns c)) < 2, ''ns-insufficient'', 5) ]"

definition fired :: "checks \<Rightarrow> (string \<times> int) list" where
  "fired c = map snd (filter fst (rule_table c))"

section \<open>The relationship graph\<close>

datatype node_type = T_domain | T_a | T_aaaa | T_mx | T_ns | T_cname

record GraphNode =
  node_id :: string
  node_type :: node_type
  node_label :: string
  node_value :: "string option"

record GraphLink =
  source :: string
  target :: string
  link_type :: string

record graph =
  nodes :: "GraphNode list"
  links :: "GraphLink list"

text \<open>
  The body of each of the five \<^verbatim>\<open>forEach\<close> callbacks: one node and one link are pushed.
  The callbacks differ in the id prefix, the node type and the link type only.
\<close>

definition add_record :: "string \<Rightarrow> node_type \<Rightarrow> string \<Rightarrow> string \<Rightarrow> graph \<Rightarrow> DNSRecord \<Rightarrow> graph" where
  "add_record pre ty kind cleanDomain g r =
     (let nodeId = pre @ ''-'' @ rec_value r
      in \<lparr> nodes = nodes g @ [\<lparr> node_id = nodeId, node_type = ty, node_label = rec_value r,
                                 node_value = Some (rec_value r) \<rparr>],
           links = links g @ [\<lparr> source = cleanDomain, target = nodeId, link_type = kind \<rparr>] \<rparr>)"

definition add_records :: "string \<Rightarrow> node_type \<Rightarrow> string \<Rightarrow> string \<Rightarrow> DNSLookupResult \<Rightarrow> graph \<Rightarrow> graph" where
  "add_records pre ty kind cleanDomain res g = foldl (add_record pre ty kind cleanDomain) g (lr_records res)"

text \<open>
  The \<^verbatim>\<open>try\<close> block of \<^verbatim>\<open>handleAnalyze\<close> in the graph component, from the five settled
  lookups on; \<open>cleanDomain\<close> is the input after trimming, lower-casing and validation.
\<close>

definition graph_of_results ::
  "string \<Rightarrow> DNSLookupResult \<Rightarrow> DNSLookupResult \<Rightarrow> DNSLookupResult \<Rightarrow> DNSLookupResult \<Rightarrow>
   DNSLookupResult \<Rightarrow> graph"
where
  "graph_of_results cleanDomain aResult aaaaResult mxResult nsResult cnameResult =
     (let g0 = \<lparr> nodes = [\<lparr> node_id = cleanDomain, node_type = T_domain,
                            node_label = cleanDomain, node_value = None \<rparr>],
                 links = [] \<rparr>;
          g1 = add_records ''a'' T_a ''A'' cleanDomain aResult g0;
          g2 = add_records ''aaaa'' T_aaaa ''AAAA'' cleanDomain aaaaResult g1;
          g3 = add_records ''mx'' T_mx ''MX'' cleanDomain mxResult g2;
          g4 = add_records ''ns'' T_ns ''NS'' cleanDomain nsResult g3
      in add_records ''cname'' T_cname ''CNAME'' cleanDomain cnameResult g4)"

definition buildGraph :: "(nat \<Rightarrow> network) \<Rightarrow> string \<Rightarrow> graph" where
  "buildGraph nets cleanDomain =
     (let aResult = lookupDNS (nets 0) cleanDomain A;
          aaaaResult = lookupDNS (nets 1) cleanDomain AAAA;
          mxResult = lookupDNS (nets 2) cleanDomain MX;
          nsResult = lookupDNS (nets 3) cleanDomain NS;
          cnameResult = lookupDNS (nets 4) cleanDomain CNAME
      in graph_of_results cleanDomain aResult aaaaResult mxResult nsResult cnameResult)"

text \<open>The seed of \<open>nodes\<close>.\<close>

definition root_node :: "string \<Rightarrow> GraphNode" where
  "root_node cleanDomain =
     \<lparr> node_id = cleanDomain, node_type = T_domain, node_label = cleanDomain, node_value = None \<rparr>"

text \<open>The nodes one lookup contributes, as the specification describes them.\<close>

definition leaf_nodes :: "string \<Rightarrow> node_type \<Rightarrow> DNSLookupResult \<Rightarrow> GraphNode list" where
  "leaf_nodes pre ty res =
     map (\<lambda>r. \<lparr> node_id = pre @ ''-'' @ rec_value r, node_type = ty, node_label = rec_value r,
                node_value = Some (rec_value r) \<rparr>) (lr_records res)"

definition leaf_links :: "string \<Rightarrow> string \<Rightarrow> string \<Rightarrow> DNSLookupResult \<Rightarrow> GraphLink list" where
  "leaf_links pre kind cleanDomain res =
     map (\<lambda>r. \<lparr> source = cleanDomain, target = pre @ ''-'' @ rec_value r, link_type = kind \<rparr>)
       (lr_records res)"

section \<open>The lookup history\<close>

record HistoryItem =
  h_id :: string
  h_domain :: string
  h_recordType :: RecordType
  h_timestamp :: int

text \<open>
  The body of \<^verbatim>\<open>saveHistory\<close>: \<open>updated\<close>, computed from the list \<open>history\<close> the callback
  closed over, is stored as the component's state and under the storage key.
\<close>

definition saveHistory :: "HistoryItem list \<Rightarrow> HistoryItem \<Rightarrow> HistoryItem list" where
  "saveHistory history item =
     take 20 (item # filter (\<lambda>h. h_domain h \<noteq> h_domain item \<or> h_recordType h \<noteq> h_recordType item)
                             history)"

text \<open>A history entry's key.\<close>

definition pair_of :: "HistoryItem \<Rightarrow> string \<times> RecordType" where
  "pair_of h = (h_domain h, h_recordType h)"

text \<open>
  The lookup component. \<^verbatim>\<open>saveHistory\<close> is a \<^verbatim>\<open>useCallback\<close> over \<open>history\<close>, and
  \<^verbatim>\<open>handleLookup\<close> calls it after \<^verbatim>\<open>await lookupDNS\<close>: the list an insertion filters is
  the one the component had when that lookup was started. The state is the current
  \<open>history\<close> and, for every lookup in flight, the list its \<^verbatim>\<open>saveHistory\<close> closed over.
  A lookup is started from the button, which is disabled while one is loading, or with
  Ctrl+Enter in the input, which is not. A lookup that ends with an error saves nothing.
\<close>

record tool_state =
  st_history :: "HistoryItem list"
  in_flight :: "nat \<rightharpoonup> HistoryItem list"

datatype event = Start nat | Succeed nat HistoryItem | Fail nat | ClearHistory

fun step :: "tool_state \<Rightarrow> event \<Rightarrow> tool_state" where
  "step s (Start k) = s\<lparr>in_flight := (in_flight s)(k \<mapsto> st_history s)\<rparr>"
| "step s (Succeed k item) =
     (case in_flight s k of
        None \<Rightarrow> s
      | Some captured \<Rightarrow>
          \<lparr> st_history = saveHistory captured item, in_flight = (in_flight s)(k := None) \<rparr>)"
| "step s (Fail k) = s\<lparr>in_flight := (in_flight s)(k := None)\<rparr>"
| "step s ClearHistory = s\<lparr>st_history := []\<rparr>"

definition run :: "tool_state \<Rightarrow> event list \<Rightarrow> tool_state" where
  "run s es = foldl step s es"

text \<open>The component after mounting, with the list read from the storage key.\<close>

definition mounted :: "HistoryItem list \<Rightarrow> tool_state" where
  "mounted saved = \<lparr> st_history = saved, in_flight = Map.empty \<rparr>"

text \<open>Lookups that succeed one after the other, each finished before the next is started.\<close>

fun one_at_a_time :: "HistoryItem list \<Rightarrow> event list" where
  "one_at_a_time [] = []"
| "one_at_a_time (item # items) = Start 0 # Succeed 0 item # one_at_a_time items"

text \<open>A list as \<^verbatim>\<open>saveHistory\<close> leaves it: at most 20 entries, no pair twice.\<close>

definition well_formed :: "HistoryItem list \<Rightarrow> bool" where
  "well_formed h = (length h \<le> 20 \<and> distinct (map pair_of h))"

text \<open>The same of the current list and of every captured one.\<close>

definition state_ok :: "tool_state \<Rightarrow> bool" where
  "state_ok s = (well_formed (st_history s) \<and> (\<forall>h\<in>ran (in_flight s). well_formed h))"

text \<open>
  The specification's reading of the list: of the entries of a newest-first sequence,
  the first one of every pair.
\<close>

fun keep_first :: "HistoryItem list \<Rightarrow> HistoryItem list" where
  "keep_first [] = []"
| "keep_first (x # xs) = x # filter (\<lambda>h. pair_of h \<noteq> pair_of x) (keep_first xs)"

text \<open>History entries on which the definitions are evaluated.\<close>

definition mk_item :: "nat \<Rightarrow> HistoryItem" where
  "mk_item n =
     \<lparr> h_id = string_of_nat (1700000000000 + n),
       h_domain = replicate (Suc n) (CHR ''a'') @ ''.example.com'',
       h_recordType = A, h_timestamp = 1700000000000 + int n \<rparr>"

section \<open>Example networks\<close>

text \<open>
  Upstreams on which the definitions are evaluated. \<open>same_upstream net\<close> lets all the
  lookups of one fan-out see the network \<open>net\<close>.
\<close>

definition same_upstream :: "network \<Rightarrow> nat \<Rightarrow> network" where
  "same_upstream net i = net"

definition offline :: network where
  "offline rq = NetworkError ''TypeError: Failed to fetch''"

definition txt_answer :: "string \<Rightarrow> answer" where
  "txt_answer s = \<lparr> ans_type = 16, ans_name = ''example.com.'', ans_data = s, ans_TTL = 300 \<rparr>"

definition example_net :: network where
  "example_net rq =
     (if req_type rq = 16 then
        Response 200 (Json \<lparr> Status = 0, Answer = Some
          [txt_answer ''v=spf1 include:_spf.example.com ~all'', txt_answer ''v=DMARC1; p=reject''] \<rparr>)
      else if req_type rq = 2 then
        Response 200 (Json \<lparr> Status = 0, Answer = Some
          [\<lparr> ans_type = 2, ans_name = ''example.com.'', ans_data = ''a.iana-servers.net.'', ans_TTL = 300 \<rparr>,
           \<lparr> ans_type = 2, ans_name = ''example.com.'', ans_data = ''b.iana-servers.net.'', ans_TTL = 300 \<rparr>] \<rparr>)
      else if req_type rq = 15 then
        Response 200 (Json \<lparr> Status = 0, Answer = Some
          [\<lparr> ans_type = 15, ans_name = ''example.com.'', ans_data = ''10 mail.example.com.'', ans_TTL = 300 \<rparr>] \<rparr>)
      else Response 200 (Json \<lparr> Status = 2, Answer = None \<rparr>))"

definition nxdomain_net :: network where
  "nxdomain_net rq =
     (if req_server rq = ''https://dns.google/resolve''
      then Response 200 (Json \<lparr> Status = 3, Answer = None \<rparr>)
      else Response 200 (Json \<lparr> Status = 0, Answer = Some
        [\<lparr> ans_type = 1, ans_name = ''example.com.'', ans_data = ''1.2.3.4'', ans_TTL = 300 \<rparr>] \<rparr>))"

definition servfail_net :: network where
  "servfail_net rq = Response 200 (Json \<lparr> Status = 2, Answer = None \<rparr>)"

definition a_answer :: "string \<Rightarrow> answer" where
  "a_answer ip = \<lparr> ans_type = 1, ans_name = ''example.com.'', ans_data = ip, ans_TTL = 300 \<rparr>"

definition graph_net :: network where
  "graph_net rq =
     (if req_type rq = 1 then
        Response 200 (Json \<lparr> Status = 0, Answer = Some [a_answer ''93.184.216.34'', a_answer ''93.184.216.35''] \<rparr>)
      else if req_type rq = 15 then
        Response 200 (Json \<lparr> Status = 0, Answer = Some
          [\<lparr> ans_type = 15, ans_name = ''example.com.'', ans_data = ''10 mail.example.com.'', ans_TTL = 300 \<rparr>] \<rparr>)
      else Response 200 (Json \<lparr> Status = 0, Answer = None \<rparr>))"

definition dup_net :: network where
  "dup_net rq =
     (if req_type rq = 1 then
        Response 200 (Json \<lparr> Status = 0, Answer = Some [a_answer ''93.184.216.34'', a_answer ''93.184.216.34''] \<rparr>)
      else Response 200 (Json \<lparr> Status = 0, Answer = None \<rparr>))"

definition shared_net :: network where
  "shared_net rq =
     (if req_type rq = 2 \<or> req_type rq = 5 then
        Response 200 (Json \<lparr> Status = 0, Answer = Some
          [\<lparr> ans_type = int (req_type rq), ans_name = ''example.com.'', ans_data = ''host.example.net.'',
             ans_TTL = 300 \<rparr>] \<rparr>)
      else Response 200 (Json \<lparr> Status = 0, Answer = None \<rparr>))"

definition alias_net :: network where
  "alias_net rq =
     (if req_type rq = 1 then
        Response 200 (Json \<lparr> Status = 0, Answer = Some
          [\<lparr> ans_type = 5, ans_name = ''a-b.com'', ans_data = ''b.com'', ans_TTL = 300 \<rparr>,
           a_answer ''93.184.216.34''] \<rparr>)
      else Response 200 (Json \<lparr> Status = 0, Answer = None \<rparr>))"

section \<open>Properties of the string functions\<close>

declare string_of_nat.simps [simp del]

declare same_upstream_def [simp]

lemma startsWith_includes: "startsWith s p \<Longrightarrow> includes_str s p"
  by (cases s) (auto elim: startsWith.elims)

section \<open>Properties of the risk heuristic\<close>

text \<open>Unfolding the lookup on a concrete network.\<close>

lemmas lookup_eval =
  lookupDNS_def lookupDNS_run_def DNS_OVER_HTTPS_SERVERS_def push_error_def response_ok_def
  to_record_def answer_type_name_def Let_def


lemma txt_policy_check_present:
  "tc_present (txt_policy_check pre res) = list_ex (\<lambda>r. startsWith (rec_value r) pre) (lr_records res)"
  by (auto simp: txt_policy_check_def list_ex_iff find_None_iff find_Some_iff split: option.splits)

lemma txt_policy_check_valid:
  "tc_valid (txt_policy_check pre res) = tc_present (txt_policy_check pre res)"
  by (auto simp: txt_policy_check_def find_Some_iff startsWith_includes split: option.splits)

lemma txt_policy_check_record:
  "tc_record (txt_policy_check pre res) =
     map_option rec_value (find (\<lambda>r. startsWith (rec_value r) pre) (lr_records res))"
  by (simp add: txt_policy_check_def split: option.splits)

lemma fire_score: "t_riskScore (fire i d t) = t_riskScore t + d"
  by (simp add: fire_def)

lemma fire_issues: "t_issues (fire i d t) = t_issues t @ [i]"
  by (simp add: fire_def)

lemmas rule_defs = run_rules_def spf_rule_def dmarc_rule_def dnssec_rule_def mx_rule_def ns_rule_def

lemma issue_ids:
  "issue_id spf_missing = ''spf-missing''" "issue_id spf_invalid = ''spf-invalid''"
  "issue_id dmarc_missing = ''dmarc-missing''" "issue_id dmarc_invalid = ''dmarc-invalid''"
  "issue_id dnssec_missing = ''dnssec-missing''" "issue_id mx_missing = ''mx-missing''"
  "issue_id ns_insufficient = ''ns-insufficient''"
  by (simp_all add: spf_missing_def spf_invalid_def dmarc_missing_def dmarc_invalid_def
      dnssec_missing_def mx_missing_def ns_insufficient_def)

lemma run_rules_score: "t_riskScore (run_rules c) = sum_list (map snd (fired c))"
  by (simp add: rule_defs fired_def rule_table_def fire_score)

lemma run_rules_ids: "map issue_id (t_issues (run_rules c)) = map fst (fired c)"
  by (simp add: rule_defs fired_def rule_table_def fire_issues issue_ids)

lemma run_rules_bounds: "0 \<le> t_riskScore (run_rules c) \<and> t_riskScore (run_rules c) \<le> 80"
  by (simp add: rule_defs fire_score)

lemma analyze_results_checks:
  "asr_checks (analyze_results d r1 r2 r3 r4 r5) =
     \<lparr> spf = spf_check r1, dmarc = dmarc_check r2, dnssec = dnssec_check_of r3,
       mx = mx_check r4, ns = ns_check r5 \<rparr>"
  by (simp add: analyze_results_def Let_def)

lemma analyze_results_riskScore:
  "riskScore (analyze_results d r1 r2 r3 r4 r5) =
     min (t_riskScore (run_rules (asr_checks (analyze_results d r1 r2 r3 r4 r5)))) 100"
  by (simp add: analyze_results_def Let_def)

lemma analyze_results_issues:
  "issues (analyze_results d r1 r2 r3 r4 r5) =
     t_issues (run_rules (asr_checks (analyze_results d r1 r2 r3 r4 r5)))"
  by (simp add: analyze_results_def Let_def)

lemma analyzeAttackSurface_unfold:
  "analyzeAttackSurface nets d =
     analyze_results d (lookupDNS (nets 0) d TXT) (lookupDNS (nets 1) d TXT)
       (lookupDNS (nets 2) d SOA) (lookupDNS (nets 3) d MX) (lookupDNS (nets 4) d NS)"
  by (simp add: analyzeAttackSurface_def Let_def)

lemma analyzeAttackSurface_checks:
  "asr_checks (analyzeAttackSurface nets d) =
     \<lparr> spf = spf_check (lookupDNS (nets 0) d TXT), dmarc = dmarc_check (lookupDNS (nets 1) d TXT),
       dnssec = dnssec_check_of (lookupDNS (nets 2) d SOA), mx = mx_check (lookupDNS (nets 3) d MX),
       ns = ns_check (lookupDNS (nets 4) d NS) \<rparr>"
  by (simp add: analyzeAttackSurface_unfold analyze_results_checks)

lemma analyzeAttackSurface_riskScore:
  "riskScore (analyzeAttackSurface nets d) =
     min (t_riskScore (run_rules (asr_checks (analyzeAttackSurface nets d)))) 100"
  unfolding analyzeAttackSurface_unfold by (rule analyze_results_riskScore)

lemma analyzeAttackSurface_issues:
  "issues (analyzeAttackSurface nets d) = t_issues (run_rules (asr_checks (analyzeAttackSurface nets d)))"
  unfolding analyzeAttackSurface_unfold by (rule analyze_results_issues)

lemma valid_iff_present:
  "tc_valid (spf (asr_checks (analyzeAttackSurface nets d))) =
     tc_present (spf (asr_checks (analyzeAttackSurface nets d)))"
  "tc_valid (dmarc (asr_checks (analyzeAttackSurface nets d))) =
     tc_present (dmarc (asr_checks (analyzeAttackSurface nets d)))"
  by (simp_all add: analyzeAttackSurface_checks spf_check_def dmarc_check_def txt_policy_check_valid)

text \<open>
  C1. The risk score of every analysis lies between 0 and 100 and is the sum, capped at
  100, of the deltas of the rules of the table that fired; the issues emitted are those
  rules' slugs, in table order. The DNSSEC, MX and NS conditions are read off the SOA,
  MX and NS lookups: no SOA record, no MX record, fewer than two NS records.
\<close>

theorem riskScore_sum_of_fired_rules:
  "0 \<le> riskScore (analyzeAttackSurface nets d)
   \<and> riskScore (analyzeAttackSurface nets d) \<le> 100
   \<and> riskScore (analyzeAttackSurface nets d) =
       min 100 (sum_list (map snd (fired (asr_checks (analyzeAttackSurface nets d)))))
   \<and> map issue_id (issues (analyzeAttackSurface nets d)) =
       map fst (fired (asr_checks (analyzeAttackSurface nets d)))
   \<and> dc_present (dnssec (asr_checks (analyzeAttackSurface nets d))) =
       (lr_records (lookupDNS (nets 2) d SOA) \<noteq> [])
   \<and> lc_present (mx (asr_checks (analyzeAttackSurface nets d))) =
       (lr_records (lookupDNS (nets 3) d MX) \<noteq> [])
   \<and> length (lc_records (ns (asr_checks (analyzeAttackSurface nets d)))) =
       length (lr_records (lookupDNS (nets 4) d NS))"
proof -
  let ?r = "analyzeAttackSurface nets d"
  have b: "0 \<le> t_riskScore (run_rules (asr_checks ?r))" "t_riskScore (run_rules (asr_checks ?r)) \<le> 80"
    using run_rules_bounds [of "asr_checks ?r"] by simp_all
  have s: "riskScore ?r = min (t_riskScore (run_rules (asr_checks ?r))) 100"
    by (rule analyzeAttackSurface_riskScore)
  have c: "dc_present (dnssec (asr_checks ?r)) = (lr_records (lookupDNS (nets 2) d SOA) \<noteq> [])"
    "lc_present (mx (asr_checks ?r)) = (lr_records (lookupDNS (nets 3) d MX) \<noteq> [])"
    "length (lc_records (ns (asr_checks ?r))) = length (lr_records (lookupDNS (nets 4) d NS))"
    by (simp_all add: analyzeAttackSurface_checks dnssec_check_of_def mx_check_def ns_check_def)
  from b s have "0 \<le> riskScore ?r" "riskScore ?r \<le> 100" by simp_all
  moreover from s have "riskScore ?r = min 100 (sum_list (map snd (fired (asr_checks ?r))))"
    by (simp add: run_rules_score min.commute)
  moreover have "map issue_id (issues ?r) = map fst (fired (asr_checks ?r))"
    by (simp add: analyzeAttackSurface_issues run_rules_ids)
  ultimately show ?thesis using c by simp
qed

lemmas analyze_eval =
  analyzeAttackSurface_checks spf_check_def dmarc_check_def txt_policy_check_def dnssec_check_of_def
  mx_check_def ns_check_def fired_def rule_table_def

theorem riskScore_sum_of_fired_rules_witness:
  "riskScore (analyzeAttackSurface (same_upstream example_net) ''example.com'') = 35
   \<and> map issue_id (issues (analyzeAttackSurface (same_upstream example_net) ''example.com'')) =
       [''dmarc-missing'', ''dnssec-missing'']"
  using riskScore_sum_of_fired_rules [of "same_upstream example_net" "''example.com''"]
  by (simp add: analyze_eval lookup_eval example_net_def txt_answer_def)

text \<open>
  C2. SPF is reported present exactly when some record of the first TXT lookup has a value
  starting with \<^verbatim>\<open>v=spf1\<close>, DMARC exactly when some record of the second TXT lookup
  has a value starting with \<^verbatim>\<open>v=dmarc1\<close> (the comparison is exact, so \<^verbatim>\<open>v=DMARC1\<close> does
  not count); each is valid exactly when present, and neither \<^verbatim>\<open>spf-invalid\<close> nor
  \<^verbatim>\<open>dmarc-invalid\<close> is ever among the issues.
\<close>

theorem spf_dmarc_valid_iff_present:
  "tc_present (spf (asr_checks (analyzeAttackSurface nets d))) =
     list_ex (\<lambda>r. startsWith (rec_value r) ''v=spf1'') (lr_records (lookupDNS (nets 0) d TXT))
   \<and> tc_valid (spf (asr_checks (analyzeAttackSurface nets d))) =
       tc_present (spf (asr_checks (analyzeAttackSurface nets d)))
   \<and> tc_present (dmarc (asr_checks (analyzeAttackSurface nets d))) =
       list_ex (\<lambda>r. startsWith (rec_value r) ''v=dmarc1'') (lr_records (lookupDNS (nets 1) d TXT))
   \<and> tc_valid (dmarc (asr_checks (analyzeAttackSurface nets d))) =
       tc_present (dmarc (asr_checks (analyzeAttackSurface nets d)))
   \<and> ''spf-invalid'' \<notin> set (map issue_id (issues (analyzeAttackSurface nets d)))
   \<and> ''dmarc-invalid'' \<notin> set (map issue_id (issues (analyzeAttackSurface nets d)))"
proof -
  let ?r = "analyzeAttackSurface nets d"
  have p: "tc_present (spf (asr_checks ?r)) =
      list_ex (\<lambda>r. startsWith (rec_value r) ''v=spf1'') (lr_records (lookupDNS (nets 0) d TXT))"
    "tc_present (dmarc (asr_checks ?r)) =
      list_ex (\<lambda>r. startsWith (rec_value r) ''v=dmarc1'') (lr_records (lookupDNS (nets 1) d TXT))"
    by (simp_all add: analyzeAttackSurface_checks spf_check_def dmarc_check_def txt_policy_check_present)
  have ids: "map issue_id (issues ?r) = map fst (fired (asr_checks ?r))"
    by (simp add: analyzeAttackSurface_issues run_rules_ids)
  have "''spf-invalid'' \<notin> set (map issue_id (issues ?r))"
    unfolding ids by (simp add: fired_def rule_table_def valid_iff_present)
  moreover have "''dmarc-invalid'' \<notin> set (map issue_id (issues ?r))"
    unfolding ids by (simp add: fired_def rule_table_def valid_iff_present)
  ultimately show ?thesis using p valid_iff_present [of nets d] by simp
qed

theorem spf_dmarc_valid_iff_present_witness:
  "tc_present (spf (asr_checks (analyzeAttackSurface (same_upstream example_net) ''example.com'')))
   \<and> tc_valid (spf (asr_checks (analyzeAttackSurface (same_upstream example_net) ''example.com'')))
   \<and> \<not> tc_present (dmarc (asr_checks (analyzeAttackSurface (same_upstream example_net) ''example.com'')))
   \<and> \<not> tc_valid (dmarc (asr_checks (analyzeAttackSurface (same_upstream example_net) ''example.com'')))"
  using spf_dmarc_valid_iff_present [of "same_upstream example_net" "''example.com''"]
  by (simp add: lookup_eval example_net_def txt_answer_def)

lemma lookup_servers_all_fail:
  "lookup_servers offline d t servers st =
     (\<lparr> lr_domain = d, lr_recordType = t, lr_records = [],
        lr_error = Some (''All DNS servers failed: '' @ join '', ''
          (errors st @ map (\<lambda>s. ''Server '' @ s @ '' failed: TypeError: Failed to fetch'') servers)) \<rparr>,
      \<lparr> errors = errors st @ map (\<lambda>s. ''Server '' @ s @ '' failed: TypeError: Failed to fetch'') servers,
        fetched = fetched st @ map (\<lambda>s. \<lparr> req_server = s, req_name = d, req_type = typeCode t \<rparr>) servers \<rparr>)"
  by (induction servers arbitrary: st) (simp_all add: offline_def push_error_def)

lemma lookupDNS_offline: "lr_records (lookupDNS offline d t) = []"
  by (simp add: lookupDNS_def lookupDNS_run_def lookup_servers_all_fail)

text \<open>
  C4. When all five lookups come back without records, the risk score is 80 and exactly
  five issues are emitted, in the order \<^verbatim>\<open>spf-missing\<close>, \<^verbatim>\<open>dmarc-missing\<close>,
  \<^verbatim>\<open>dnssec-missing\<close>, \<^verbatim>\<open>mx-missing\<close>, \<^verbatim>\<open>ns-insufficient\<close>.
\<close>

theorem total_failure_scores_80:
  assumes "lr_records (lookupDNS (nets 0) d TXT) = []"
    and "lr_records (lookupDNS (nets 1) d TXT) = []"
    and "lr_records (lookupDNS (nets 2) d SOA) = []"
    and "lr_records (lookupDNS (nets 3) d MX) = []"
    and "lr_records (lookupDNS (nets 4) d NS) = []"
  shows "riskScore (analyzeAttackSurface nets d) = 80
    \<and> issues (analyzeAttackSurface nets d) =
        [spf_missing, dmarc_missing, dnssec_missing, mx_missing, ns_insufficient]
    \<and> map issue_id (issues (analyzeAttackSurface nets d)) =
        [''spf-missing'', ''dmarc-missing'', ''dnssec-missing'', ''mx-missing'', ''ns-insufficient'']
    \<and> length (issues (analyzeAttackSurface nets d)) = 5"
proof -
  let ?r = "analyzeAttackSurface nets d"
  have c: "asr_checks ?r =
      \<lparr> spf = \<lparr> tc_present = False, tc_valid = False, tc_record = None \<rparr>,
        dmarc = \<lparr> tc_present = False, tc_valid = False, tc_record = None \<rparr>,
        dnssec = \<lparr> dc_present = False, dc_signed = False \<rparr>,
        mx = \<lparr> lc_present = False, lc_records = [] \<rparr>,
        ns = \<lparr> lc_present = False, lc_records = [] \<rparr> \<rparr>"
    using assms
    by (simp add: analyzeAttackSurface_checks spf_check_def dmarc_check_def txt_policy_check_def
        dnssec_check_of_def mx_check_def ns_check_def)
  have t: "run_rules (asr_checks ?r) =
      \<lparr> t_issues = [spf_missing, dmarc_missing, dnssec_missing, mx_missing, ns_insufficient],
        t_riskScore = 80 \<rparr>"
    unfolding c by (simp add: rule_defs fire_def)
  have "riskScore ?r = 80"
    by (simp add: analyzeAttackSurface_riskScore t)
  moreover have i: "issues ?r = [spf_missing, dmarc_missing, dnssec_missing, mx_missing, ns_insufficient]"
    by (simp add: analyzeAttackSurface_issues t)
  moreover have "map issue_id (issues ?r) =
      [''spf-missing'', ''dmarc-missing'', ''dnssec-missing'', ''mx-missing'', ''ns-insufficient'']"
    unfolding i by (simp add: issue_ids)
  ultimately show ?thesis by simp
qed

theorem total_failure_scores_80_witness:
  "lr_records (lookupDNS offline ''example.com'' TXT) = []
   \<and> lr_records (lookupDNS offline ''example.com'' SOA) = []
   \<and> lr_records (lookupDNS offline ''example.com'' MX) = []
   \<and> lr_records (lookupDNS offline ''example.com'' NS) = []
   \<and> riskScore (analyzeAttackSurface (same_upstream offline) ''example.com'') = 80
   \<and> map issue_id (issues (analyzeAttackSurface (same_upstream offline) ''example.com'')) =
       [''spf-missing'', ''dmarc-missing'', ''dnssec-missing'', ''mx-missing'', ''ns-insufficient'']"
  using total_failure_scores_80 [of "same_upstream offline" "''example.com''"]
  by (simp add: lookupDNS_offline issue_ids)

text \<open>
  C9. The accumulated score never exceeds 80, so the final \<^verbatim>\<open>Math.min(riskScore, 100)\<close>
  returns the accumulated score unchanged and no score from 81 to 100 is ever returned.
\<close>

theorem riskScore_at_most_80:
  "riskScore (analyzeAttackSurface nets d) \<le> 80
   \<and> riskScore (analyzeAttackSurface nets d) =
       t_riskScore (run_rules (asr_checks (analyzeAttackSurface nets d)))
   \<and> riskScore (analyzeAttackSurface nets d) \<notin> {81..100}"
proof -
  let ?r = "analyzeAttackSurface nets d"
  have b: "t_riskScore (run_rules (asr_checks ?r)) \<le> 80"
    using run_rules_bounds [of "asr_checks ?r"] by simp
  then have "riskScore ?r = t_riskScore (run_rules (asr_checks ?r))"
    by (simp add: analyzeAttackSurface_riskScore)
  with b show ?thesis by simp
qed

theorem riskScore_at_most_80_witness:
  "riskScore (analyzeAttackSurface (same_upstream offline) ''example.com'') \<le> 80
   \<and> t_riskScore (run_rules (asr_checks (analyzeAttackSurface (same_upstream offline) ''example.com''))) = 80"
  using riskScore_at_most_80 [of "same_upstream offline" "''example.com''"]
  by (simp add: analyzeAttackSurface_checks spf_check_def dmarc_check_def txt_policy_check_def
      dnssec_check_of_def mx_check_def ns_check_def lookupDNS_offline rule_defs fire_score)

lemma lookup_servers_requests:
  "set (fetched (snd (lookup_servers net d t servers st))) \<subseteq>
     set (fetched st) \<union> (\<lambda>s. \<lparr> req_server = s, req_name = d, req_type = typeCode t \<rparr>) ` set servers"
proof (induction servers arbitrary: st)
  case Nil
  show ?case by simp
next
  case (Cons s servers)
  let ?rq = "\<lparr> req_server = s, req_name = d, req_type = typeCode t \<rparr>"
  let ?st1 = "st\<lparr>fetched := fetched st @ [?rq]\<rparr>"
  have step: "set (fetched (snd (lookup_servers net d t servers (push_error m ?st1)))) \<subseteq>
      set (fetched st) \<union> (\<lambda>s. \<lparr> req_server = s, req_name = d, req_type = typeCode t \<rparr>) ` set (s # servers)" for m
    using Cons.IH [of "push_error m ?st1"] by (auto simp: push_error_def)
  have step': "set (fetched (snd (lookup_servers net d t servers ?st1))) \<subseteq>
      set (fetched st) \<union> (\<lambda>s. \<lparr> req_server = s, req_name = d, req_type = typeCode t \<rparr>) ` set (s # servers)"
    using Cons.IH [of ?st1] by auto
  show ?case
    using step step'
    by (auto simp: Let_def split: fetch_outcome.split body.split)
qed


lemma lookupDNS_run_requests:
  "set (fetched (snd (lookupDNS_run net d t))) \<subseteq>
     (\<lambda>s. \<lparr> req_server = s, req_name = d, req_type = typeCode t \<rparr>) ` set DNS_OVER_HTTPS_SERVERS"
  using lookup_servers_requests [of net d t DNS_OVER_HTTPS_SERVERS "\<lparr> errors = [], fetched = [] \<rparr>"]
  by (simp add: lookupDNS_run_def)

text \<open>
  C10. The DMARC check reads a TXT lookup of the input domain itself, the query of the SPF
  check: every request of either lookup carries the input domain as its name and the TXT
  type code 16. When the upstream answers both lookups alike, the two checks search the
  same record list and differ in the prefix only.
\<close>

theorem dmarc_check_reads_spf_query:
  assumes "nets 1 = nets 0"
  shows "spf (asr_checks (analyzeAttackSurface nets d)) =
      txt_policy_check ''v=spf1'' (lookupDNS (nets 0) d TXT)
    \<and> dmarc (asr_checks (analyzeAttackSurface nets d)) =
      txt_policy_check ''v=dmarc1'' (lookupDNS (nets 0) d TXT)
    \<and> tc_record (spf (asr_checks (analyzeAttackSurface nets d))) =
      map_option rec_value
        (find (\<lambda>r. startsWith (rec_value r) ''v=spf1'') (lr_records (lookupDNS (nets 0) d TXT)))
    \<and> tc_record (dmarc (asr_checks (analyzeAttackSurface nets d))) =
      map_option rec_value
        (find (\<lambda>r. startsWith (rec_value r) ''v=dmarc1'') (lr_records (lookupDNS (nets 0) d TXT)))
    \<and> list_all (\<lambda>rq. req_name rq = d \<and> req_type rq = 16) (fetched (snd (lookupDNS_run (nets 0) d TXT)))
    \<and> list_all (\<lambda>rq. req_name rq = d \<and> req_type rq = 16) (fetched (snd (lookupDNS_run (nets 1) d TXT)))
    \<and> fetched (snd (lookupDNS_run (nets 1) d TXT)) = fetched (snd (lookupDNS_run (nets 0) d TXT))"
proof -
  have q: "list_all (\<lambda>rq. req_name rq = d \<and> req_type rq = 16) (fetched (snd (lookupDNS_run net d TXT)))" for net
    using lookupDNS_run_requests [of net d TXT] by (auto simp: list_all_iff)
  show ?thesis
    using assms q [of "nets 0"]
    by (simp add: analyzeAttackSurface_checks spf_check_def dmarc_check_def txt_policy_check_record)
qed

theorem dmarc_check_reads_spf_query_witness:
  "fetched (snd (lookupDNS_run example_net ''example.com'' TXT)) =
     [\<lparr> req_server = ''https://dns.google/resolve'', req_name = ''example.com'', req_type = 16 \<rparr>]
   \<and> tc_record (spf (asr_checks (analyzeAttackSurface (same_upstream example_net) ''example.com''))) =
       Some ''v=spf1 include:_spf.example.com ~all''
   \<and> tc_record (dmarc (asr_checks (analyzeAttackSurface (same_upstream example_net) ''example.com''))) = None"
  using dmarc_check_reads_spf_query [of "same_upstream example_net" "''example.com''"]
  by (simp add: lookup_eval example_net_def txt_answer_def txt_policy_check_def)

section \<open>Properties of the resolver client\<close>

lemma lookup_servers_skip:
  "list_all (\<lambda>s. \<not> usable net d t s) pre \<Longrightarrow>
   lookup_servers net d t (pre @ rest) st =
     lookup_servers net d t rest
       \<lparr> errors = errors st @ List.map_filter (endpoint_error net d t) pre,
         fetched = fetched st @ map (\<lambda>s. \<lparr> req_server = s, req_name = d, req_type = typeCode t \<rparr>) pre \<rparr>"
proof (induction pre arbitrary: st)
  case Nil
  show ?case by (cases st) (simp add: List.map_filter_simps)
next
  case (Cons s pre)
  from Cons.prems have rest: "list_all (\<lambda>s. \<not> usable net d t s) pre"
    and here: "\<not> usable net d t s" by simp_all
  show ?case
    using here
    by (auto simp: Cons.IH [OF rest] usable_def endpoint_error_def push_error_def
        List.map_filter_simps Let_def split: fetch_outcome.splits body.splits)
qed

lemma lookup_servers_exhausted:
  assumes "list_all (\<lambda>s. \<not> usable net d t s) servers"
  shows "lookup_servers net d t servers st =
     (\<lparr> lr_domain = d, lr_recordType = t, lr_records = [],
        lr_error = Some (''All DNS servers failed: '' @
          join '', '' (errors st @ List.map_filter (endpoint_error net d t) servers)) \<rparr>,
      \<lparr> errors = errors st @ List.map_filter (endpoint_error net d t) servers,
        fetched = fetched st @ map (\<lambda>s. \<lparr> req_server = s, req_name = d, req_type = typeCode t \<rparr>) servers \<rparr>)"
  using lookup_servers_skip [OF assms, of "[]" st] by simp

lemma lookup_servers_nxdomain:
  assumes "net \<lparr> req_server = server, req_name = d, req_type = typeCode t \<rparr> = Response code (Json data)"
    and "response_ok code"
    and "Status data = 3"
  shows "lookup_servers net d t (server # rest) st =
      (\<lparr> lr_domain = d, lr_recordType = t, lr_records = [],
         lr_error = Some ''NXDOMAIN - Domain does not exist'' \<rparr>,
       st\<lparr>fetched := fetched st @ [\<lparr> req_server = server, req_name = d, req_type = typeCode t \<rparr>]\<rparr>)"
  using assms by (simp add: Let_def)

text \<open>
  C5. When the loop reaches an endpoint (every endpoint before it in the list failed to
  give a usable answer) and that endpoint answers with \<^verbatim>\<open>Status\<close> 3, the lookup returns
  at once: the result has no records and the error \<^verbatim>\<open>NXDOMAIN - Domain does not exist\<close>,
  which contains \<^verbatim>\<open>NXDOMAIN\<close>; the requests sent are those to the endpoints up to and
  including this one, and the run is the same as if the list ended with this endpoint.
\<close>

theorem nxdomain_returns_immediately:
  assumes "DNS_OVER_HTTPS_SERVERS = pre @ server # rest"
    and "list_all (\<lambda>s. \<not> usable net d t s) pre"
    and "net \<lparr> req_server = server, req_name = d, req_type = typeCode t \<rparr> = Response code (Json data)"
    and "response_ok code"
    and "Status data = 3"
  shows "lr_records (lookupDNS net d t) = []
    \<and> lr_error (lookupDNS net d t) = Some ''NXDOMAIN - Domain does not exist''
    \<and> includes_str ''NXDOMAIN - Domain does not exist'' ''NXDOMAIN''
    \<and> fetched (snd (lookupDNS_run net d t)) =
        map (\<lambda>s. \<lparr> req_server = s, req_name = d, req_type = typeCode t \<rparr>) (pre @ [server])
    \<and> lookupDNS_run net d t =
        lookup_servers net d t (pre @ [server]) \<lparr> errors = [], fetched = [] \<rparr>"
proof -
  let ?rq = "\<lambda>s. \<lparr> req_server = s, req_name = d, req_type = typeCode t \<rparr>"
  let ?st = "\<lparr> errors = List.map_filter (endpoint_error net d t) pre, fetched = map ?rq pre \<rparr>"
  let ?nx = "\<lparr> lr_domain = d, lr_recordType = t, lr_records = [],
      lr_error = Some ''NXDOMAIN - Domain does not exist'' \<rparr>"
  have reach: "lookup_servers net d t (pre @ server # more) \<lparr> errors = [], fetched = [] \<rparr> =
      lookup_servers net d t (server # more) ?st" for more
    using lookup_servers_skip [OF assms(2), of "server # more" "\<lparr> errors = [], fetched = [] \<rparr>"]
    by simp
  have stop: "lookup_servers net d t (server # more) ?st = (?nx, ?st\<lparr>fetched := fetched ?st @ [?rq server]\<rparr>)"
    for more
    using assms(3-5) by (rule lookup_servers_nxdomain)
  have run: "lookupDNS_run net d t = (?nx, ?st\<lparr>fetched := fetched ?st @ [?rq server]\<rparr>)"
    unfolding lookupDNS_run_def assms(1) reach stop ..
  have same: "lookupDNS_run net d t = lookup_servers net d t (pre @ [server]) \<lparr> errors = [], fetched = [] \<rparr>"
    unfolding run reach stop ..
  have inc: "includes_str ''NXDOMAIN - Domain does not exist'' ''NXDOMAIN''"
    by simp
  from run same inc show ?thesis
    by (simp add: lookupDNS_def)
qed

theorem nxdomain_returns_immediately_witness:
  "lookupDNS_run nxdomain_net ''nope.example'' A =
     (\<lparr> lr_domain = ''nope.example'', lr_recordType = A, lr_records = [],
        lr_error = Some ''NXDOMAIN - Domain does not exist'' \<rparr>,
      \<lparr> errors = [],
        fetched = [\<lparr> req_server = ''https://dns.google/resolve'', req_name = ''nope.example'',
                     req_type = 1 \<rparr>] \<rparr>)
   \<and> lr_records (lookupDNS nxdomain_net ''nope.example'' A) = []"
  using nxdomain_returns_immediately [of "[]" "''https://dns.google/resolve''"
      "[''https://cloudflare-dns.com/dns-query'']" nxdomain_net "''nope.example''" A 200
      "\<lparr> Status = 3, Answer = None \<rparr>"]
  by (simp add: nxdomain_net_def response_ok_def DNS_OVER_HTTPS_SERVERS_def)

text \<open>
  C3. Two endpoints that both answer \<^verbatim>\<open>Status\<close> 2 (SERVFAIL): both are asked, neither
  yields a usable answer, and no message is recorded for either; the error of the result
  is the bare prefix \<^verbatim>\<open>All DNS servers failed: \<close>.
\<close>

theorem servfail_records_no_error:
  "lookupDNS_run servfail_net ''example.com'' A =
     (\<lparr> lr_domain = ''example.com'', lr_recordType = A, lr_records = [],
        lr_error = Some ''All DNS servers failed: '' \<rparr>,
      \<lparr> errors = [],
        fetched = [\<lparr> req_server = ''https://dns.google/resolve'', req_name = ''example.com'',
                     req_type = 1 \<rparr>,
                   \<lparr> req_server = ''https://cloudflare-dns.com/dns-query'', req_name = ''example.com'',
                     req_type = 1 \<rparr>] \<rparr>)"
  by (simp add: servfail_net_def response_ok_def lookupDNS_run_def DNS_OVER_HTTPS_SERVERS_def)

section \<open>Properties of the relationship graph\<close>

lemma foldl_add_record_nodes:
  "nodes (foldl (add_record pre ty kind d) g rs) =
     nodes g @ map (\<lambda>r. \<lparr> node_id = pre @ ''-'' @ rec_value r, node_type = ty,
                           node_label = rec_value r, node_value = Some (rec_value r) \<rparr>) rs"
  by (induction rs arbitrary: g) (simp_all add: add_record_def Let_def)

lemma foldl_add_record_links:
  "links (foldl (add_record pre ty kind d) g rs) =
     links g @ map (\<lambda>r. \<lparr> source = d, target = pre @ ''-'' @ rec_value r, link_type = kind \<rparr>) rs"
  by (induction rs arbitrary: g) (simp_all add: add_record_def Let_def)

lemma add_records_nodes:
  "nodes (add_records pre ty kind d res g) = nodes g @ leaf_nodes pre ty res"
  by (simp add: add_records_def leaf_nodes_def foldl_add_record_nodes)

lemma add_records_links:
  "links (add_records pre ty kind d res g) = links g @ leaf_links pre kind d res"
  by (simp add: add_records_def leaf_links_def foldl_add_record_links)

lemma graph_of_results_nodes:
  "nodes (graph_of_results d r1 r2 r3 r4 r5) =
     root_node d # leaf_nodes ''a'' T_a r1 @ leaf_nodes ''aaaa'' T_aaaa r2 @ leaf_nodes ''mx'' T_mx r3
       @ leaf_nodes ''ns'' T_ns r4 @ leaf_nodes ''cname'' T_cname r5"
  by (simp add: graph_of_results_def Let_def add_records_nodes root_node_def)

lemma graph_of_results_links:
  "links (graph_of_results d r1 r2 r3 r4 r5) =
     leaf_links ''a'' ''A'' d r1 @ leaf_links ''aaaa'' ''AAAA'' d r2 @ leaf_links ''mx'' ''MX'' d r3
       @ leaf_links ''ns'' ''NS'' d r4 @ leaf_links ''cname'' ''CNAME'' d r5"
  by (simp add: graph_of_results_def Let_def add_records_links)

lemma buildGraph_unfold:
  "buildGraph nets d =
     graph_of_results d (lookupDNS (nets 0) d A) (lookupDNS (nets 1) d AAAA) (lookupDNS (nets 2) d MX)
       (lookupDNS (nets 3) d NS) (lookupDNS (nets 4) d CNAME)"
  by (simp add: buildGraph_def Let_def)

lemma leaf_nodes_facts:
  "length (leaf_nodes pre ty res) = length (lr_records res)"
  "map node_id (leaf_nodes pre ty res) = map (\<lambda>r. pre @ ''-'' @ rec_value r) (lr_records res)"
  "ty \<noteq> T_domain \<Longrightarrow> filter (\<lambda>n. node_type n = T_domain) (leaf_nodes pre ty res) = []"
  by (simp_all add: leaf_nodes_def filter_empty_conv)

lemma leaf_links_facts:
  "length (leaf_links pre kind d res) = length (lr_records res)"
  "map target (leaf_links pre kind d res) = map (\<lambda>r. pre @ ''-'' @ rec_value r) (lr_records res)"
  "list_all (\<lambda>l. source l = d) (leaf_links pre kind d res)"
  by (simp_all add: leaf_links_def list_all_iff)

text \<open>
  C6. The graph has the root node, of type \<^verbatim>\<open>domain\<close> and with the domain as its id, and
  after it one node per record of the A, AAAA, MX, NS and CNAME lookups, in that order,
  with id \<^verbatim>\<open><prefix>-<value>\<close>; the root is the only node of type \<^verbatim>\<open>domain\<close>. There is
  one link per record, targeting that record's node, and every link's source is the
  domain. Two A records and one MX record give 4 nodes and 3 links.
\<close>

theorem buildGraph_star:
  "nodes (buildGraph nets d) =
     root_node d # leaf_nodes ''a'' T_a (lookupDNS (nets 0) d A)
       @ leaf_nodes ''aaaa'' T_aaaa (lookupDNS (nets 1) d AAAA)
       @ leaf_nodes ''mx'' T_mx (lookupDNS (nets 2) d MX)
       @ leaf_nodes ''ns'' T_ns (lookupDNS (nets 3) d NS)
       @ leaf_nodes ''cname'' T_cname (lookupDNS (nets 4) d CNAME)
   \<and> links (buildGraph nets d) =
     leaf_links ''a'' ''A'' d (lookupDNS (nets 0) d A)
       @ leaf_links ''aaaa'' ''AAAA'' d (lookupDNS (nets 1) d AAAA)
       @ leaf_links ''mx'' ''MX'' d (lookupDNS (nets 2) d MX)
       @ leaf_links ''ns'' ''NS'' d (lookupDNS (nets 3) d NS)
       @ leaf_links ''cname'' ''CNAME'' d (lookupDNS (nets 4) d CNAME)
   \<and> filter (\<lambda>n. node_type n = T_domain) (nodes (buildGraph nets d)) = [root_node d]
   \<and> node_id (root_node d) = d
   \<and> length (nodes (buildGraph nets d)) =
       1 + length (lr_records (lookupDNS (nets 0) d A)) + length (lr_records (lookupDNS (nets 1) d AAAA))
         + length (lr_records (lookupDNS (nets 2) d MX)) + length (lr_records (lookupDNS (nets 3) d NS))
         + length (lr_records (lookupDNS (nets 4) d CNAME))
   \<and> length (links (buildGraph nets d)) =
       length (lr_records (lookupDNS (nets 0) d A)) + length (lr_records (lookupDNS (nets 1) d AAAA))
         + length (lr_records (lookupDNS (nets 2) d MX)) + length (lr_records (lookupDNS (nets 3) d NS))
         + length (lr_records (lookupDNS (nets 4) d CNAME))
   \<and> map target (links (buildGraph nets d)) = map node_id (tl (nodes (buildGraph nets d)))
   \<and> list_all (\<lambda>l. source l = d) (links (buildGraph nets d))"
  by (simp add: buildGraph_unfold graph_of_results_nodes graph_of_results_links leaf_nodes_facts
      leaf_links_facts root_node_def)

lemmas graph_eval = leaf_nodes_def leaf_links_def root_node_def

theorem buildGraph_star_witness:
  "length (lr_records (lookupDNS graph_net ''example.com'' A)) = 2
   \<and> length (lr_records (lookupDNS graph_net ''example.com'' MX)) = 1
   \<and> length (nodes (buildGraph (same_upstream graph_net) ''example.com'')) = 4
   \<and> length (links (buildGraph (same_upstream graph_net) ''example.com'')) = 3
   \<and> map node_id (nodes (buildGraph (same_upstream graph_net) ''example.com'')) =
       [''example.com'', ''a-93.184.216.34'', ''a-93.184.216.35'', ''mx-10 mail.example.com.'']
   \<and> map source (links (buildGraph (same_upstream graph_net) ''example.com'')) =
       [''example.com'', ''example.com'', ''example.com'']"
  using buildGraph_star [of "same_upstream graph_net" "''example.com''"]
  by (simp add: graph_eval lookup_eval graph_net_def a_answer_def)

text \<open>
  C7. Node ids are not unique in general: an A lookup that returns the value
  \<^verbatim>\<open>93.184.216.34\<close> twice yields two nodes with the id \<^verbatim>\<open>a-93.184.216.34\<close>.
\<close>

theorem duplicate_value_shares_id:
  "\<not> distinct (map node_id (nodes (buildGraph (same_upstream dup_net) ''example.com'')))"
  by (simp add: buildGraph_unfold graph_of_results_nodes graph_eval lookup_eval dup_net_def a_answer_def)

lemma distinct_prefixed: "distinct (map (\<lambda>r. pre @ rec_value r) rs) = distinct (map rec_value rs)"
proof -
  have "map (\<lambda>r. pre @ rec_value r) rs = map ((@) pre) (map rec_value rs)" by simp
  then show ?thesis by (simp only: distinct_map) (auto simp: inj_on_def)
qed

text \<open>
  C7, amended. When the values of each lookup are pairwise distinct and no record's node
  takes the id of the root, all node ids are pairwise distinct; in particular a value that
  appears under two record types gives two different ids.
\<close>

theorem node_ids_distinct:
  assumes "distinct (map rec_value (lr_records (lookupDNS (nets 0) d A)))"
    and "distinct (map rec_value (lr_records (lookupDNS (nets 1) d AAAA)))"
    and "distinct (map rec_value (lr_records (lookupDNS (nets 2) d MX)))"
    and "distinct (map rec_value (lr_records (lookupDNS (nets 3) d NS)))"
    and "distinct (map rec_value (lr_records (lookupDNS (nets 4) d CNAME)))"
    and "list_all (\<lambda>n. node_id n \<noteq> d) (tl (nodes (buildGraph nets d)))"
  shows "distinct (map node_id (nodes (buildGraph nets d)))"
proof -
  have root: "d \<notin> set (map node_id (tl (nodes (buildGraph nets d))))"
    using assms(6) by (auto simp: list_all_iff)
  note parts = distinct_prefixed [of "''a-''", simplified] distinct_prefixed [of "''aaaa-''", simplified]
    distinct_prefixed [of "''mx-''", simplified] distinct_prefixed [of "''ns-''", simplified]
    distinct_prefixed [of "''cname-''", simplified]
  show ?thesis
    using assms(1-5) root
    by (auto simp: buildGraph_unfold graph_of_results_nodes leaf_nodes_facts parts root_node_def)
qed

theorem node_ids_distinct_witness:
  "distinct (map node_id (nodes (buildGraph (same_upstream shared_net) ''example.com'')))
   \<and> map node_id (nodes (buildGraph (same_upstream shared_net) ''example.com'')) =
       [''example.com'', ''ns-host.example.net.'', ''cname-host.example.net.'']"
  using node_ids_distinct [of "same_upstream shared_net" "''example.com''"]
  by (simp add: buildGraph_unfold graph_of_results_nodes graph_eval lookup_eval shared_net_def)

text \<open>Ids built with two different type prefixes differ, whatever the values.\<close>

lemma type_prefix_separates:
  assumes "p \<in> set [''a'', ''aaaa'', ''mx'', ''ns'', ''cname'']"
    and "q \<in> set [''a'', ''aaaa'', ''mx'', ''ns'', ''cname'']"
    and "p \<noteq> q"
  shows "p @ ''-'' @ v \<noteq> q @ ''-'' @ w"
  using assms by auto

text \<open>A record's node can take the id of the root: domain \<^verbatim>\<open>a-b.com\<close>, A lookup value \<^verbatim>\<open>b.com\<close>.\<close>

lemma root_id_can_collide:
  "map node_id (nodes (buildGraph (same_upstream alias_net) ''a-b.com'')) =
     [''a-b.com'', ''a-b.com'', ''a-93.184.216.34'']"
  by (simp add: buildGraph_unfold graph_of_results_nodes graph_eval lookup_eval alias_net_def a_answer_def)


section \<open>Properties of the lookup history\<close>

lemma saveHistory_pair:
  "saveHistory history item = take 20 (item # filter (\<lambda>h. pair_of h \<noteq> pair_of item) history)"
  by (simp add: saveHistory_def pair_of_def)

lemma take_filter_take:
  "n + length (filter (\<lambda>x. \<not> P x) (take m xs)) \<le> m \<Longrightarrow>
   take n (filter P (take m xs)) = take n (filter P xs)"
proof (induction xs arbitrary: n m)
  case Nil
  show ?case by simp
next
  case (Cons x xs)
  show ?case
  proof (cases m)
    case 0
    with Cons.prems show ?thesis by simp
  next
    case (Suc m')
    show ?thesis
    proof (cases "P x")
      case True
      show ?thesis
      proof (cases n)
        case 0
        then show ?thesis by simp
      next
        case (Suc n')
        with Cons.prems \<open>m = Suc m'\<close> True
        have "n' + length (filter (\<lambda>x. \<not> P x) (take m' xs)) \<le> m'" by simp
        from Cons.IH [OF this] show ?thesis using True Suc \<open>m = Suc m'\<close> by simp
      qed
    next
      case False
      with Cons.prems \<open>m = Suc m'\<close>
      have "n + length (filter (\<lambda>x. \<not> P x) (take m' xs)) \<le> m'" by simp
      from Cons.IH [OF this] show ?thesis using False \<open>m = Suc m'\<close> by simp
    qed
  qed
qed

lemma distinct_key_filter_le1:
  "distinct (map f xs) \<Longrightarrow> length (filter (\<lambda>x. f x = k) xs) \<le> 1"
proof (induction xs)
  case Nil
  show ?case by simp
next
  case (Cons x xs)
  then have d: "f x \<notin> f ` set xs" and IH: "length (filter (\<lambda>x. f x = k) xs) \<le> 1" by simp_all
  show ?case
  proof (cases "f x = k")
    case True
    with d have "\<forall>y\<in>set xs. f y \<noteq> k" by (metis imageI)
    then have "filter (\<lambda>x. f x = k) xs = []" by (simp add: filter_empty_conv)
    with True show ?thesis by simp
  next
    case False
    with IH show ?thesis by simp
  qed
qed

lemma keep_first_keys: "set (keep_first xs) \<subseteq> set xs"
  by (induction xs) auto

lemma keep_first_distinct: "distinct (map pair_of (keep_first xs))"
proof (induction xs)
  case Nil
  show ?case by simp
next
  case (Cons x xs)
  have "distinct (map pair_of (filter (\<lambda>h. pair_of h \<noteq> pair_of x) (keep_first xs)))"
    using Cons.IH by (rule distinct_map_filter)
  then show ?case by auto
qed

lemma keep_first_id: "distinct (map pair_of xs) \<Longrightarrow> keep_first xs = xs"
proof (induction xs)
  case Nil
  show ?case by simp
next
  case (Cons x xs)
  then have k: "keep_first xs = xs" and d: "pair_of x \<notin> pair_of ` set xs" by simp_all
  from d have "\<forall>h\<in>set xs. pair_of h \<noteq> pair_of x" by (metis imageI)
  then have "filter (\<lambda>h. pair_of h \<noteq> pair_of x) xs = xs" by (simp add: filter_id_conv)
  with k show ?case by simp
qed

lemma saveHistory_keep_first:
  "saveHistory (take 20 (keep_first xs)) item = take 20 (keep_first (item # xs))"
proof -
  let ?P = "\<lambda>h. pair_of h \<noteq> pair_of item"
  let ?L = "keep_first xs"
  have "distinct (map pair_of (take 20 ?L))"
    using distinct_take [OF keep_first_distinct [of xs], of 20] by (simp add: take_map)
  then have "length (filter (\<lambda>h. pair_of h = pair_of item) (take 20 ?L)) \<le> 1"
    by (rule distinct_key_filter_le1)
  then have "19 + length (filter (\<lambda>h. \<not> ?P h) (take 20 ?L)) \<le> 20" by simp
  then have "take 19 (filter ?P (take 20 ?L)) = take 19 (filter ?P ?L)"
    by (rule take_filter_take)
  then show ?thesis
    by (simp add: saveHistory_pair)
qed

lemma foldl_saveHistory_keep_first:
  assumes "distinct (map pair_of history)" and "length history \<le> 20"
  shows "foldl saveHistory history items = take 20 (keep_first (rev items @ history))"
proof (induction items rule: rev_induct)
  case Nil
  from assms show ?case by (simp add: keep_first_id)
next
  case (snoc x items)
  have "foldl saveHistory history (items @ [x]) = saveHistory (foldl saveHistory history items) x"
    by simp
  also have "\<dots> = saveHistory (take 20 (keep_first (rev items @ history))) x"
    by (simp only: snoc.IH)
  also have "\<dots> = take 20 (keep_first (x # rev items @ history))"
    by (rule saveHistory_keep_first)
  finally show ?case by simp
qed


lemma keep_first_append:
  "keep_first (xs @ ys) =
     keep_first xs @ filter (\<lambda>h. pair_of h \<notin> pair_of ` set xs) (keep_first ys)"
proof (induction xs)
  case Nil
  show ?case by simp
next
  case (Cons x xs)
  let ?zs = "keep_first ys"
  have "filter (\<lambda>h. pair_of h \<noteq> pair_of x) (filter (\<lambda>h. pair_of h \<notin> pair_of ` set xs) ?zs)
      = filter (\<lambda>h. pair_of h \<notin> pair_of ` set xs \<and> pair_of h \<noteq> pair_of x) ?zs"
    by (simp only: filter_filter)
  also have "\<dots> = filter (\<lambda>h. pair_of h \<notin> pair_of ` set (x # xs)) ?zs"
    by (rule filter_cong) auto
  finally show ?case using Cons.IH by simp
qed

lemma filter_take_filter_other:
  "filter (\<lambda>h. f h = k) (take n (filter (\<lambda>h. f h \<noteq> k) xs)) = []"
  by (induction xs arbitrary: n) (auto simp: take_Cons split: nat.splits)

lemma saveHistory_front:
  "hd (saveHistory history item) = item"
  "filter (\<lambda>h. pair_of h = pair_of item) (saveHistory history item) = [item]"
proof -
  let ?rest = "take 19 (filter (\<lambda>h. pair_of h \<noteq> pair_of item) history)"
  have eq: "saveHistory history item = item # ?rest"
    by (simp add: saveHistory_pair)
  show "hd (saveHistory history item) = item"
    by (simp only: eq list.sel)
  have "filter (\<lambda>h. pair_of h = pair_of item) ?rest = []"
    by (rule filter_take_filter_other)
  then show "filter (\<lambda>h. pair_of h = pair_of item) (saveHistory history item) = [item]"
    unfolding eq by simp
qed

lemma foldl_saveHistory_many_distinct:
  assumes "distinct (map pair_of history)" and "length history \<le> 20"
    and "distinct (map pair_of items)" and "20 \<le> length items"
  shows "foldl saveHistory history items = take 20 (rev items)"
proof -
  from assms(3) have "distinct (map pair_of (rev items))"
    by (simp add: rev_map [symmetric])
  then have "keep_first (rev items) = rev items"
    by (rule keep_first_id)
  then have "keep_first (rev items @ history) = rev items @
      filter (\<lambda>h. pair_of h \<notin> pair_of ` set (rev items)) (keep_first history)"
    by (simp only: keep_first_append)
  with assms(4) have "take 20 (keep_first (rev items @ history)) = take 20 (rev items)"
    by simp
  with foldl_saveHistory_keep_first [OF assms(1,2), of items] show ?thesis by simp
qed



lemma saveHistory_well_formed: "distinct (map pair_of h) \<Longrightarrow> well_formed (saveHistory h item)"
proof -
  assume d: "distinct (map pair_of h)"
  let ?rest = "filter (\<lambda>x. pair_of x \<noteq> pair_of item) h"
  from d have "distinct (map pair_of ?rest)" by (rule distinct_map_filter)
  moreover have "pair_of item \<notin> pair_of ` set ?rest" by auto
  ultimately have "distinct (map pair_of (item # ?rest))" by simp
  from distinct_take [OF this, of 20] show ?thesis
    by (simp add: well_formed_def saveHistory_pair take_map)
qed

text \<open>
  Whatever the lookups do, overlapping or not, the list stays well-formed: at most 20
  entries and no pair twice.
\<close>

lemma step_ok: "state_ok s \<Longrightarrow> state_ok (step s e)"
proof (cases e)
  case (Start k)
  assume "state_ok s"
  then show ?thesis using Start by (auto simp: state_ok_def ran_def)
next
  case (Succeed k item)
  assume ok: "state_ok s"
  show ?thesis
  proof (cases "in_flight s k")
    case None
    with ok Succeed show ?thesis by simp
  next
    case (Some captured)
    with ok have "well_formed captured" by (auto simp: state_ok_def ran_def)
    then have "well_formed (saveHistory captured item)"
      by (intro saveHistory_well_formed) (simp add: well_formed_def)
    moreover from ok have "\<forall>h\<in>ran ((in_flight s)(k := None)). well_formed h"
      by (auto simp: state_ok_def ran_def split: if_splits)
    ultimately show ?thesis using Succeed Some by (simp add: state_ok_def)
  qed
next
  case (Fail k)
  assume "state_ok s"
  then show ?thesis using Fail by (auto simp: state_ok_def ran_def split: if_splits)
next
  case ClearHistory
  assume "state_ok s"
  then show ?thesis using ClearHistory by (simp add: state_ok_def well_formed_def)
qed

lemma run_ok: "state_ok s \<Longrightarrow> state_ok (run s es)"
  unfolding run_def by (induction es arbitrary: s) (simp_all add: step_ok)

lemma run_well_formed:
  "well_formed saved \<Longrightarrow> well_formed (st_history (run (mounted saved) es))"
  using run_ok [of "mounted saved" es] by (simp add: state_ok_def mounted_def)

text \<open>An insertion puts its item at the front, as the only entry of its pair.\<close>

lemma succeed_front:
  assumes "in_flight s k = Some captured"
  shows "hd (st_history (step s (Succeed k item))) = item"
    and "filter (\<lambda>h. pair_of h = pair_of item) (st_history (step s (Succeed k item))) = [item]"
  using assms saveHistory_front [where history = captured and item = item] by simp_all

text \<open>
  Lookups made one at a time give what the specification describes: the first 20 of the
  newest-first sequence with one entry per pair, and the last 20 of 21 distinct pairs.
\<close>

lemma run_append: "run s (es @ es') = run (run s es) es'"
  by (simp add: run_def)

lemma run_one_at_a_time:
  "st_history (run s (one_at_a_time items)) = foldl saveHistory (st_history s) items"
  unfolding run_def by (induction items arbitrary: s) simp_all

lemma one_at_a_time_keep_first:
  assumes "well_formed saved"
  shows "st_history (run (mounted saved) (one_at_a_time items)) = take 20 (keep_first (rev items @ saved))"
  using assms foldl_saveHistory_keep_first [of saved items]
  by (simp add: run_one_at_a_time mounted_def well_formed_def)

lemma one_at_a_time_21_distinct:
  assumes "well_formed saved" and "distinct (map pair_of items)" and "length items = 21"
  shows "st_history (run (mounted saved) (one_at_a_time items)) = rev (tl items)"
proof -
  from assms have "foldl saveHistory saved items = take 20 (rev items)"
    by (intro foldl_saveHistory_many_distinct) (simp_all add: well_formed_def)
  also from assms(3) have "\<dots> = rev (drop 1 items)" by (simp add: take_rev)
  finally show ?thesis by (simp add: run_one_at_a_time mounted_def drop_Suc)
qed

text \<open>Two lookups in flight at once: the second insertion filters the list captured at its start.\<close>

lemma overlapping_pair:
  "a \<noteq> b \<Longrightarrow>
   st_history (run s [Start a, Start b, Succeed a x, Succeed b y]) = saveHistory (st_history s) y"
  by (simp add: run_def)

lemma pair_of_mk_item: "(pair_of (mk_item n) = pair_of (mk_item m)) = (n = m)"
proof -
  have "replicate n (CHR ''a'') @ ''.example.com'' = replicate m (CHR ''a'') @ ''.example.com'' \<Longrightarrow> n = m"
    by (drule arg_cong [where f = length]) simp
  then show ?thesis by (auto simp: pair_of_def mk_item_def)
qed

lemma distinct_mk_items: "distinct (map pair_of (map mk_item [m..<n]))"
  by (simp add: distinct_map inj_on_def comp_def pair_of_mk_item)


lemma mk_item_eq: "(mk_item n = mk_item m) = (n = m)"
  using pair_of_mk_item [of n m] by auto

lemma one_at_a_time_keeps_last_20:
  "st_history (run (mounted []) (one_at_a_time (map mk_item [0..<21]))) = rev (map mk_item [1..<21])"
proof -
  have "st_history (run (mounted []) (one_at_a_time (map mk_item [0..<21]))) =
      rev (tl (map mk_item [0..<21]))"
  proof (rule one_at_a_time_21_distinct)
    show "well_formed []" by (simp add: well_formed_def)
    show "distinct (map pair_of (map mk_item [0..<21]))" by (rule distinct_mk_items)
    show "length (map mk_item [0..<21]) = 21" by simp
  qed
  then show ?thesis by (simp add: map_tl [symmetric] del: map_tl)
qed

text \<open>
  C8. Two lookups that overlap, both started with Ctrl+Enter before either has answered:
  from an empty history, the lookups of two different pairs leave only the second, since
  its insertion filters the history captured at its start and overwrites the first. When
  the last two of 21 lookups with distinct pairs overlap, the history afterwards is the
  21st entry followed by the first 19: the 20th is lost and the oldest is kept, where the
  20 most recent were to be retained.
\<close>

theorem overlapping_lookups_lose_entry:
  "st_history (run (mounted [])
      [Start 0, Start 1, Succeed 0 (mk_item 0), Succeed 1 (mk_item 1)]) = [mk_item 1]
   \<and> st_history (run (mounted [])
      (one_at_a_time (map mk_item [0..<19])
        @ [Start 19, Start 20, Succeed 19 (mk_item 19), Succeed 20 (mk_item 20)])) =
     mk_item 20 # rev (map mk_item [0..<19])
   \<and> mk_item 19 \<notin> set (st_history (run (mounted [])
      (one_at_a_time (map mk_item [0..<19])
        @ [Start 19, Start 20, Succeed 19 (mk_item 19), Succeed 20 (mk_item 20)])))"
proof -
  have two: "st_history (run (mounted [])
      [Start 0, Start 1, Succeed 0 (mk_item 0), Succeed 1 (mk_item 1)]) = [mk_item 1]"
    by (simp add: overlapping_pair mounted_def saveHistory_pair)
  have d: "distinct (map pair_of (map mk_item [0..<19]))" by (rule distinct_mk_items)
  have "foldl saveHistory [] (map mk_item [0..<19]) = take 20 (keep_first (rev (map mk_item [0..<19]) @ []))"
    by (rule foldl_saveHistory_keep_first) simp_all
  also have "keep_first (rev (map mk_item [0..<19]) @ []) = rev (map mk_item [0..<19])"
    using d keep_first_id [of "rev (map mk_item [0..<19])"] by (simp add: rev_map [symmetric])
  finally have first: "st_history (run (mounted []) (one_at_a_time (map mk_item [0..<19]))) =
      rev (map mk_item [0..<19])"
    by (simp add: run_one_at_a_time mounted_def)
  have "filter (\<lambda>h. pair_of h \<noteq> pair_of (mk_item 20)) (rev (map mk_item [0..<19])) =
      rev (map mk_item [0..<19])"
    by (auto simp: filter_id_conv pair_of_mk_item)
  then have last: "saveHistory (rev (map mk_item [0..<19])) (mk_item 20) =
      mk_item 20 # rev (map mk_item [0..<19])"
    by (simp add: saveHistory_pair)
  have lost: "st_history (run (mounted [])
      (one_at_a_time (map mk_item [0..<19])
        @ [Start 19, Start 20, Succeed 19 (mk_item 19), Succeed 20 (mk_item 20)])) =
     mk_item 20 # rev (map mk_item [0..<19])"
    unfolding run_append by (simp only: overlapping_pair first last)
  have "mk_item 19 \<notin> set (mk_item 20 # rev (map mk_item [0..<19]))"
    by (auto simp: mk_item_eq)
  with two lost show ?thesis by simp
qed

end
